theory Spec2Isabelle
  imports Complex_Main "HOL-Library.Sublist"
begin

section \<open>Python values and string operations\<close>

text \<open>
  The claims processor is Python. Its dictionaries hold values of mixed type; the values
  this program stores and reads are \<open>None\<close>, strings and numbers.

  \<^item> \<open>PNum\<close> is a Python number: the float a damage amount parses to, or the int
    literal \<open>0\<close> the extractor stores as a default. A finite number is given by its
    exact value (Python compares an int with a float exactly, so the order on \<open>rat\<close>
    is the order the code computes); the floats \<open>inf\<close>, \<open>-inf\<close> and \<open>nan\<close> are values
    of their own. The rounding of decimal text to the nearest double is not modelled,
    and negative zero is zero.
  \<^item> A string is a list of characters. The model is exact for ASCII text: case mapping
    touches the letters A-Z only and whitespace is the ASCII whitespace, so a character
    above 127 is treated as an uncased symbol that is not a space.
\<close>

datatype pynum = Fin rat | PosInf | NegInf | NaN

datatype pyval = PNone | PNum pynum | PStr string

datatype py_error = AttributeError | TypeError | ValueError

type_synonym pydict = "string \<rightharpoonup> pyval"

definition dict_get :: "pydict \<Rightarrow> string \<Rightarrow> pyval \<Rightarrow> pyval" where
  \<comment> \<open>\<open>d.get(k, default)\<close>; \<open>d.get(k)\<close> is \<open>dict_get d k PNone\<close>.\<close>
  "dict_get d k dflt = (case d k of None \<Rightarrow> dflt | Some v \<Rightarrow> v)"

fun truthy :: "pyval \<Rightarrow> bool" where
  \<comment> \<open>Python's truth value: \<open>None\<close>, zero and the empty string are false.\<close>
  "truthy PNone = False"
| "truthy (PNum n) = (n \<noteq> Fin 0)"
| "truthy (PStr s) = (s \<noteq> [])"

definition lower_char :: "char \<Rightarrow> char" where
  "lower_char c =
     (case map_of (zip ''ABCDEFGHIJKLMNOPQRSTUVWXYZ'' ''abcdefghijklmnopqrstuvwxyz'') c of
        Some l \<Rightarrow> l
      | None \<Rightarrow> c)"

definition upper_char :: "char \<Rightarrow> char" where
  "upper_char c =
     (case map_of (zip ''abcdefghijklmnopqrstuvwxyz'' ''ABCDEFGHIJKLMNOPQRSTUVWXYZ'') c of
        Some u \<Rightarrow> u
      | None \<Rightarrow> c)"

definition str_lower :: "string \<Rightarrow> string" where
  \<comment> \<open>\<open>s.lower()\<close>\<close>
  "str_lower s = map lower_char s"

definition whitespace_chars :: "char list" where
  \<comment> \<open>tab, line feed, vertical tab, form feed, carriage return, the four separators
      0x1C-0x1F, and the space: the characters below 128 for which \<open>str.isspace\<close> holds,
      which are also the ones the pattern class \<open>\s\<close> matches.\<close>
  "whitespace_chars =
     [CHR 0x09, CHR 0x0A, CHR 0x0B, CHR 0x0C, CHR 0x0D,
      CHR 0x1C, CHR 0x1D, CHR 0x1E, CHR 0x1F, CHR 0x20]"

definition py_isspace :: "char \<Rightarrow> bool" where
  "py_isspace c = (c \<in> set whitespace_chars)"

definition str_strip :: "string \<Rightarrow> string" where
  \<comment> \<open>\<open>s.strip()\<close>\<close>
  "str_strip s = rev (dropWhile py_isspace (rev (dropWhile py_isspace s)))"

primrec starts_with :: "string \<Rightarrow> string \<Rightarrow> bool" where
  \<comment> \<open>\<open>starts_with p s\<close>: \<open>s.startswith(p)\<close>\<close>
  "starts_with [] s = True"
| "starts_with (p # ps) s = (case s of [] \<Rightarrow> False | c # cs \<Rightarrow> p = c \<and> starts_with ps cs)"

primrec str_in :: "string \<Rightarrow> string \<Rightarrow> bool" where
  \<comment> \<open>\<open>str_in k s\<close>: the substring test \<open>k in s\<close>\<close>
  "str_in k [] = (k = [])"
| "str_in k (c # cs) = (starts_with k (c # cs) \<or> str_in k cs)"

fun join :: "string \<Rightarrow> string list \<Rightarrow> string" where
  \<comment> \<open>\<open>sep.join(xs)\<close>\<close>
  "join sep [] = []"
| "join sep [x] = x"
| "join sep (x # y # ys) = x @ sep @ join sep (y # ys)"

subsection \<open>Number formatting\<close>

definition digit_char :: "nat \<Rightarrow> char" where
  "digit_char n = ''0123456789'' ! (n mod 10)"

fun str_nat :: "nat \<Rightarrow> string" where
  \<comment> \<open>the decimal digits of a natural number\<close>
  "str_nat n = (if n < 10 then [digit_char n] else str_nat (n div 10) @ [digit_char n])"

declare str_nat.simps [simp del]

fun group_thousands :: "string \<Rightarrow> string" where
  \<comment> \<open>the \<open>,\<close> option of a format specification: a comma before every group of three
      digits, counted from the right\<close>
  "group_thousands ds =
     (if length ds \<le> 3 then ds
      else group_thousands (take (length ds - 3) ds) @ '','' @ drop (length ds - 3) ds)"

declare group_thousands.simps [simp del]

definition round_half_even :: "rat \<Rightarrow> nat" where
  \<comment> \<open>the nearest natural number of a non-negative value, a tie going to the even one\<close>
  "round_half_even x =
     (let f = nat \<lfloor>x\<rfloor>; d = x - of_nat f
      in if d < 1 / 2 then f else if 1 / 2 < d then f + 1 else if even f then f else f + 1)"

fun format_comma_2f :: "pynum \<Rightarrow> string" where
  \<comment> \<open>\<open>f"{v:,.2f}"\<close>\<close>
  "format_comma_2f (Fin v) =
     (let cents = round_half_even (\<bar>v\<bar> * 100)
      in (if v < 0 then ''-'' else '''') @ group_thousands (str_nat (cents div 100)) @ ''.''
         @ [digit_char (cents div 10), digit_char cents])"
| "format_comma_2f PosInf = ''inf''"
| "format_comma_2f NegInf = ''-inf''"
| "format_comma_2f NaN = ''nan''"

fun num_less :: "pynum \<Rightarrow> rat \<Rightarrow> bool" where
  \<comment> \<open>\<open>n < t\<close> for a finite \<open>t\<close>; every comparison with \<open>nan\<close> is false\<close>
  "num_less (Fin v) t = (v < t)"
| "num_less NegInf t = True"
| "num_less PosInf t = False"
| "num_less NaN t = False"

definition format_comma_int :: "nat \<Rightarrow> string" where
  \<comment> \<open>\<open>f"{n:,}"\<close> for a non-negative int\<close>
  "format_comma_int n = group_thousands (str_nat n)"

section \<open>Field validation (\<open>FieldExtractor.validate_fields\<close>)\<close>

definition MANDATORY_FIELDS :: "string list" where
  "MANDATORY_FIELDS =
     [''policy_number'', ''policyholder_name'', ''incident_date'',
      ''incident_location'', ''claim_type'', ''estimated_damage'']"

definition placeholder_values :: "string list" where
  "placeholder_values =
     [''not'', ''not provided'', ''n/a'', ''na'', ''unknown'', ''incomplete'',
      ''insufficient'', ''missing'']"

fun is_placeholder :: "pyval \<Rightarrow> bool" where
  \<comment> \<open>\<open>isinstance(value, str) and value.lower().strip() in placeholder_values\<close>\<close>
  "is_placeholder (PStr s) = (str_strip (str_lower s) \<in> set placeholder_values)"
| "is_placeholder _ = False"

fun validate_loop :: "pydict \<Rightarrow> string list \<Rightarrow> string list \<Rightarrow> string list" where
  \<comment> \<open>the \<open>for field in self.MANDATORY_FIELDS\<close> loop; the last argument is \<open>missing\<close>\<close>
  "validate_loop extracted_fields [] missing = missing"
| "validate_loop extracted_fields (field # rest) missing =
     (let value = dict_get extracted_fields field PNone
      in if \<not> truthy value then validate_loop extracted_fields rest (missing @ [field])
         else if is_placeholder value then validate_loop extracted_fields rest (missing @ [field])
         else validate_loop extracted_fields rest missing)"

definition validate_fields :: "pydict \<Rightarrow> string list" where
  "validate_fields extracted_fields = validate_loop extracted_fields MANDATORY_FIELDS []"

section \<open>Fraud keywords (\<open>FieldExtractor.check_for_fraud_indicators\<close>)\<close>

definition fraud_keywords :: "string list" where
  "fraud_keywords = [''fraud'', ''inconsistent'', ''staged'', ''suspicious'', ''falsified'']"

fun fraud_loop :: "string \<Rightarrow> string list \<Rightarrow> string list \<Rightarrow> string list" where
  \<comment> \<open>the \<open>for keyword in fraud_keywords\<close> loop; the last argument is \<open>indicators\<close>\<close>
  "fraud_loop text_lower [] indicators = indicators"
| "fraud_loop text_lower (keyword # rest) indicators =
     (if str_in keyword text_lower then fraud_loop text_lower rest (indicators @ [keyword])
      else fraud_loop text_lower rest indicators)"

definition check_for_fraud_indicators :: "string \<Rightarrow> string list" where
  "check_for_fraud_indicators text = fraud_loop (str_lower text) fraud_keywords []"

section \<open>Routing (\<open>RoutingEngine.determine_route\<close>)\<close>

record routing_decision =
  recommendedRoute :: string
  reasoning :: string

definition FAST_TRACK_THRESHOLD :: nat where
  "FAST_TRACK_THRESHOLD = 25000"

definition all_routes :: "string list" where
  \<comment> \<open>\<open>RoutingEngine.get_all_routes\<close>\<close>
  "all_routes =
     [''FAST_TRACK'', ''STANDARD_REVIEW'', ''MANUAL_REVIEW'', ''INVESTIGATION_FLAG'',
      ''SPECIALIST_QUEUE'']"

definition damage_rule :: "pyval \<Rightarrow> py_error + routing_decision" where
  \<comment> \<open>Rule 4. The comparison \<open>damage_value < 25000\<close> raises TypeError when the value is
      \<open>None\<close> or a string.\<close>
  "damage_rule damage_value =
     (case damage_value of
        PNum v \<Rightarrow>
          if num_less v (of_nat FAST_TRACK_THRESHOLD)
          then Inr \<lparr>recommendedRoute = ''FAST_TRACK'',
                    reasoning = ''Low damage amount ($'' @ format_comma_2f v @ '' < $''
                      @ format_comma_int FAST_TRACK_THRESHOLD
                      @ ''). Eligible for expedited processing.''\<rparr>
          else Inr \<lparr>recommendedRoute = ''STANDARD_REVIEW'',
                    reasoning = ''High damage amount ($'' @ format_comma_2f v @ '' >= $''
                      @ format_comma_int FAST_TRACK_THRESHOLD
                      @ ''). Requires standard review.''\<rparr>
      | _ \<Rightarrow> Inl TypeError)"

definition determine_route ::
  "pydict \<Rightarrow> string list \<Rightarrow> string list \<Rightarrow> py_error + routing_decision" where
  \<comment> \<open>\<open>.lower()\<close> on a claim type that is not a string raises AttributeError.\<close>
  "determine_route extracted_fields missing_fields fraud_indicators =
     (if missing_fields \<noteq> []
      then Inr \<lparr>recommendedRoute = ''MANUAL_REVIEW'',
                reasoning = ''Missing mandatory fields: '' @ join '', '' missing_fields\<rparr>
      else if fraud_indicators \<noteq> []
      then Inr \<lparr>recommendedRoute = ''INVESTIGATION_FLAG'',
                reasoning = ''Potential fraud indicators detected: ''
                  @ join '', '' fraud_indicators\<rparr>
      else
        (case dict_get extracted_fields ''claim_type'' (PStr '''') of
           PStr s \<Rightarrow>
             (let claim_type = str_lower s
              in if str_in ''injury'' claim_type \<or> str_in ''bodily'' claim_type
                    \<or> str_in ''personal'' claim_type
                 then Inr \<lparr>recommendedRoute = ''SPECIALIST_QUEUE'',
                           reasoning = ''Claim type requires specialist handling (injury/bodily harm involved)''\<rparr>
                 else damage_rule
                        (dict_get extracted_fields ''estimated_damage_value'' (PNum (Fin 0))))
         | _ \<Rightarrow> Inl AttributeError))"

section \<open>Pattern matching (Python's \<open>re.search\<close>)\<close>

text \<open>
  The extractor finds its fields with regular expressions. The patterns of this program
  use literals, character classes, alternation, greedy and lazy repetition, one capturing
  group each, one lookahead and the anchor \<open>$\<close>; \<open>regex\<close> has a constructor for each.
  Python's matcher backtracks: where a pattern can match in several ways the alternatives
  are tried in a fixed order (the left branch of an alternation before the right, one more
  round of a greedy repetition before stopping, stopping before one more round of a lazy
  one) and the first way that lets the whole pattern match is taken. \<open>rmatch\<close> returns
  every way a pattern matches at the start of the input, in that order, so the head of
  the list is the match Python reports.

  Every search of this program passes \<open>re.IGNORECASE\<close>, and the searches that use
  \<open>$\<close> pass \<open>re.MULTILINE\<close>, so matching here ignores case and \<open>$\<close> matches at the
  end of the text and before every line feed. (\<open>re.DOTALL\<close> changes the meaning of an
  unescaped dot only, and no pattern has one.)
\<close>

datatype regex =
    Lits string \<comment> \<open>a run of literal characters\<close>
  | Cls bool "char list" \<comment> \<open>a character class \<open>[...]\<close>, or \<open>[^...]\<close> when the flag is set\<close>
  | Eps \<comment> \<open>the empty pattern\<close>
  | Cat regex regex \<comment> \<open>one pattern after the other\<close>
  | Alt regex regex \<comment> \<open>\<open>r1|r2\<close>\<close>
  | Rep regex nat "nat option" bool
      \<comment> \<open>\<open>r{m,n}\<close>, with no upper bound when \<open>n\<close> is \<open>None\<close>; greedy when the flag is set\<close>
  | Grp regex \<comment> \<open>the capturing group \<open>(r)\<close>; every pattern has exactly one\<close>
  | Look regex \<comment> \<open>the lookahead \<open>(?=r)\<close>\<close>
  | Eol \<comment> \<open>\<open>$\<close>\<close>

type_synonym mstate = "string \<times> string option"
  \<comment> \<open>the text still to be read, and what group 1 has captured so far\<close>

fun match_lits :: "string \<Rightarrow> string \<Rightarrow> string option" where
  \<comment> \<open>the rest of the text after the literals, compared ignoring case\<close>
  "match_lits [] s = Some s"
| "match_lits (l # ls) [] = None"
| "match_lits (l # ls) (c # cs) =
     (if lower_char c = lower_char l then match_lits ls cs else None)"

definition in_class :: "bool \<Rightarrow> char list \<Rightarrow> char \<Rightarrow> bool" where
  \<comment> \<open>Under IGNORECASE the members of a class and the character read are both
      lower-cased before the test; a negated class inverts the outcome.\<close>
  "in_class negated cs c = ((lower_char c \<in> set (map lower_char cs)) \<noteq> negated)"

primrec rep_opt ::
  "(string \<Rightarrow> string option \<Rightarrow> mstate list) \<Rightarrow> bool \<Rightarrow> nat
   \<Rightarrow> string \<Rightarrow> string option \<Rightarrow> mstate list" where
  \<comment> \<open>At most \<open>k\<close> further rounds of a repetition's body. A round that reads nothing
      ends the repetition (no body of this program's patterns can match the empty
      string).\<close>
  "rep_opt body greedy 0 s g = [(s, g)]"
| "rep_opt body greedy (Suc k) s g =
     (let more = concat (map (\<lambda>(s', g'). if length s' < length s
                                          then rep_opt body greedy k s' g' else [])
                          (body s g))
      in if greedy then more @ [(s, g)] else (s, g) # more)"

primrec rep_min ::
  "(string \<Rightarrow> string option \<Rightarrow> mstate list) \<Rightarrow> nat
   \<Rightarrow> (string \<Rightarrow> string option \<Rightarrow> mstate list)
   \<Rightarrow> string \<Rightarrow> string option \<Rightarrow> mstate list" where
  \<comment> \<open>the \<open>m\<close> rounds a repetition must make, then \<open>cont\<close>\<close>
  "rep_min body 0 cont s g = cont s g"
| "rep_min body (Suc m) cont s g =
     concat (map (\<lambda>(s', g'). rep_min body m cont s' g') (body s g))"

fun rmatch :: "regex \<Rightarrow> string \<Rightarrow> string option \<Rightarrow> mstate list" where
  "rmatch (Lits l) s g = (case match_lits l s of None \<Rightarrow> [] | Some rest \<Rightarrow> [(rest, g)])"
| "rmatch (Cls negated cs) s g =
     (case s of [] \<Rightarrow> [] | c # rest \<Rightarrow> if in_class negated cs c then [(rest, g)] else [])"
| "rmatch Eps s g = [(s, g)]"
| "rmatch (Cat r1 r2) s g = concat (map (\<lambda>(s', g'). rmatch r2 s' g') (rmatch r1 s g))"
| "rmatch (Alt r1 r2) s g = rmatch r1 s g @ rmatch r2 s g"
| "rmatch (Rep r m n greedy) s g =
     rep_min (rmatch r) m
       (\<lambda>s' g'. rep_opt (rmatch r) greedy
                  (case n of None \<Rightarrow> length s' | Some k \<Rightarrow> k - m) s' g')
       s g"
| "rmatch (Grp r) s g =
     map (\<lambda>(s', g'). (s', Some (take (length s - length s') s))) (rmatch r s g)"
| "rmatch (Look r) s g = (if rmatch r s g = [] then [] else [(s, g)])"
| "rmatch Eol s g =
     (case s of [] \<Rightarrow> [(s, g)] | c # rest \<Rightarrow> if c = CHR 0x0A then [(s, g)] else [])"

fun re_search :: "regex \<Rightarrow> string \<Rightarrow> string option option" where
  \<comment> \<open>\<open>re.search\<close>: the first position of the text, from the left, at which the pattern
      matches. \<open>None\<close> when there is none, else \<open>Some\<close> of the match's \<open>group(1)\<close>
      (itself \<open>None\<close> for a group that took no part in the match).\<close>
  "re_search r [] = (case rmatch r [] None of [] \<Rightarrow> None | (rest, g) # others \<Rightarrow> Some g)"
| "re_search r (c # cs) =
     (case rmatch r (c # cs) None of
        [] \<Rightarrow> re_search r cs
      | (rest, g) # others \<Rightarrow> Some g)"

subsection \<open>Writing patterns\<close>

definition seq :: "regex list \<Rightarrow> regex" where
  "seq rs = foldr Cat rs Eps"

fun alts :: "regex list \<Rightarrow> regex" where
  "alts [] = Cls False []"
| "alts [r] = r"
| "alts (r # rs) = Alt r (alts rs)"

definition zero_or_more :: "regex \<Rightarrow> regex" where
  \<comment> \<open>\<open>r*\<close>\<close>
  "zero_or_more r = Rep r 0 None True"

definition one_or_more :: "regex \<Rightarrow> regex" where
  \<comment> \<open>\<open>r+\<close>\<close>
  "one_or_more r = Rep r 1 None True"

definition one_or_more_lazy :: "regex \<Rightarrow> regex" where
  \<comment> \<open>\<open>r+?\<close>\<close>
  "one_or_more_lazy r = Rep r 1 None False"

definition optional :: "regex \<Rightarrow> regex" where
  \<comment> \<open>\<open>r?\<close>\<close>
  "optional r = Rep r 0 (Some 1) True"

definition exactly :: "nat \<Rightarrow> regex \<Rightarrow> regex" where
  \<comment> \<open>\<open>r{n}\<close>\<close>
  "exactly n r = Rep r n (Some n) True"

definition digit_chars :: "char list" where
  "digit_chars = ''0123456789''"

definition upper_chars :: "char list" where
  "upper_chars = ''ABCDEFGHIJKLMNOPQRSTUVWXYZ''"

definition lower_chars :: "char list" where
  "lower_chars = ''abcdefghijklmnopqrstuvwxyz''"

definition word_chars :: "char list" where
  \<comment> \<open>the characters below 128 that \<open>\w\<close> matches\<close>
  "word_chars = lower_chars @ upper_chars @ digit_chars @ ''_''"

definition newline :: "char list" where
  "newline = [CHR 0x0A]"

definition space :: regex where
  \<comment> \<open>\<open>\s\<close>\<close>
  "space = Cls False whitespace_chars"

definition spaces :: regex where
  \<comment> \<open>\<open>\s*\<close>\<close>
  "spaces = zero_or_more space"

definition label_end :: regex where
  \<comment> \<open>\<open>[:\s]*\<close>, which follows the label in every field pattern\<close>
  "label_end = zero_or_more (Cls False ('':'' @ whitespace_chars))"

definition digit :: regex where
  \<comment> \<open>\<open>[0-9]\<close>\<close>
  "digit = Cls False digit_chars"

definition date_pattern :: regex where
  \<comment> \<open>\<open>[0-9]{2}[/-][0-9]{2}[/-][0-9]{4}\<close>\<close>
  "date_pattern =
     seq [exactly 2 digit, Cls False ''/-'', exactly 2 digit, Cls False ''/-'', exactly 4 digit]"

subsection \<open>The field patterns (\<open>FieldExtractor.FIELD_PATTERNS\<close>)\<close>

definition policy_number_pattern :: regex where
  \<comment> \<open>\<open>(?:POLICY\s*(?:NUMBER|#)|POLICY_NUMBER)[:\s]*([0-9A-Za-z-]+)\<close>\<close>
  "policy_number_pattern =
     seq [alts [seq [Lits ''POLICY'', spaces, alts [Lits ''NUMBER'', Lits ''#'']],
                Lits ''POLICY_NUMBER''],
          label_end,
          Grp (one_or_more (Cls False (digit_chars @ upper_chars @ lower_chars @ ''-'')))]"

definition policyholder_name_pattern :: regex where
  \<comment> \<open>\<open>(?:NAME\s*OF\s*INSURED|POLICYHOLDER\s*NAME)[:\s]*([^,\n]+)\<close>\<close>
  "policyholder_name_pattern =
     seq [alts [seq [Lits ''NAME'', spaces, Lits ''OF'', spaces, Lits ''INSURED''],
                seq [Lits ''POLICYHOLDER'', spaces, Lits ''NAME'']],
          label_end,
          Grp (one_or_more (Cls True ('','' @ newline)))]"

definition effective_date_pattern :: regex where
  \<comment> \<open>\<open>(?:EFFECTIVE\s*DATE|COVERAGE\s*PERIOD)[:\s]*([0-9]{2}[/-][0-9]{2}[/-][0-9]{4})\<close>\<close>
  "effective_date_pattern =
     seq [alts [seq [Lits ''EFFECTIVE'', spaces, Lits ''DATE''],
                seq [Lits ''COVERAGE'', spaces, Lits ''PERIOD'']],
          label_end,
          Grp date_pattern]"

definition incident_date_pattern :: regex where
  \<comment> \<open>\<open>(?:DATE\s*OF\s*(?:LOSS|ACCIDENT)|DATE)[:\s]*([0-9]{2}[/-][0-9]{2}[/-][0-9]{4})\<close>\<close>
  "incident_date_pattern =
     seq [alts [seq [Lits ''DATE'', spaces, Lits ''OF'', spaces,
                     alts [Lits ''LOSS'', Lits ''ACCIDENT'']],
                Lits ''DATE''],
          label_end,
          Grp date_pattern]"

definition incident_time_pattern :: regex where
  \<comment> \<open>\<open>(?:TIME)[:\s]*([0-9]{1,2}:[0-9]{2}\s*(?:AM|PM)?)\<close>\<close>
  "incident_time_pattern =
     seq [Lits ''TIME'',
          label_end,
          Grp (seq [Rep digit 1 (Some 2) True, Lits '':'', exactly 2 digit, spaces,
                    optional (alts [Lits ''AM'', Lits ''PM''])])]"

definition incident_location_pattern :: regex where
  \<comment> \<open>\<open>(?:LOCATION\s*OF\s*(?:LOSS|ACCIDENT)|STREET|ADDRESS|LOC)[:\s]*([^;\n]+?)(?=\n|;|$)\<close>\<close>
  "incident_location_pattern =
     seq [alts [seq [Lits ''LOCATION'', spaces, Lits ''OF'', spaces,
                     alts [Lits ''LOSS'', Lits ''ACCIDENT'']],
                Lits ''STREET'', Lits ''ADDRESS'', Lits ''LOC''],
          label_end,
          Grp (one_or_more_lazy (Cls True ('';'' @ newline))),
          Look (alts [Lits newline, Lits '';'', Eol])]"

definition city_state_zip_pattern :: regex where
  \<comment> \<open>\<open>(?:CITY|CITY,\s*STATE)[:\s]*([^,\n]+(?:,[^,\n]+)*)\<close>\<close>
  "city_state_zip_pattern =
     seq [alts [Lits ''CITY'', seq [Lits ''CITY,'', spaces, Lits ''STATE'']],
          label_end,
          Grp (seq [one_or_more (Cls True ('','' @ newline)),
                    zero_or_more (seq [Lits '','', one_or_more (Cls True ('','' @ newline))])])]"

definition claimant_name_pattern :: regex where
  \<comment> \<open>\<open>(?:NAME\s*OF\s*(?:CLAIMANT|CONTACT)|CONTACT\s*NAME)[:\s]*([^,\n]+)\<close>\<close>
  "claimant_name_pattern =
     seq [alts [seq [Lits ''NAME'', spaces, Lits ''OF'', spaces,
                     alts [Lits ''CLAIMANT'', Lits ''CONTACT'']],
                seq [Lits ''CONTACT'', spaces, Lits ''NAME'']],
          label_end,
          Grp (one_or_more (Cls True ('','' @ newline)))]"

definition third_party_pattern :: regex where
  \<comment> \<open>\<open>(?:OTHER\s*(?:VEHICLE|PARTY)|THIRD\s*PARTY)[:\s]*([^\n]+)\<close>\<close>
  "third_party_pattern =
     seq [alts [seq [Lits ''OTHER'', spaces, alts [Lits ''VEHICLE'', Lits ''PARTY'']],
                seq [Lits ''THIRD'', spaces, Lits ''PARTY'']],
          label_end,
          Grp (one_or_more (Cls True newline))]"

definition contact_phone_pattern :: regex where
  \<comment> \<open>\<open>(?:(?:PRIMARY\s*|SECONDARY\s*)?PHONE)[:\s]*([0-9]{3}[.-]?[0-9]{3}[.-]?[0-9]{4})\<close>\<close>
  "contact_phone_pattern =
     seq [optional (alts [seq [Lits ''PRIMARY'', spaces], seq [Lits ''SECONDARY'', spaces]]),
          Lits ''PHONE'',
          label_end,
          Grp (seq [exactly 3 digit, optional (Cls False ''.-''), exactly 3 digit,
                    optional (Cls False ''.-''), exactly 4 digit])]"

definition contact_email_pattern :: regex where
  \<comment> \<open>\<open>(?:E-MAIL|EMAIL)[:\s]*([a-zA-Z0-9._%+-]+@[a-zA-Z0-9.-]+\.[a-zA-Z]{2,})\<close>\<close>
  "contact_email_pattern =
     seq [alts [Lits ''E-MAIL'', Lits ''EMAIL''],
          label_end,
          Grp (seq [one_or_more (Cls False (lower_chars @ upper_chars @ digit_chars @ ''._%+-'')),
                    Lits ''@'',
                    one_or_more (Cls False (lower_chars @ upper_chars @ digit_chars @ ''.-'')),
                    Lits ''.'',
                    Rep (Cls False (lower_chars @ upper_chars)) 2 None True])]"

definition asset_type_pattern :: regex where
  \<comment> \<open>\<open>(?:INSURED\s*VEHICLE|ASSET\s*TYPE)[:\s]*([^\n]+)\<close>\<close>
  "asset_type_pattern =
     seq [alts [seq [Lits ''INSURED'', spaces, Lits ''VEHICLE''],
                seq [Lits ''ASSET'', spaces, Lits ''TYPE'']],
          label_end,
          Grp (one_or_more (Cls True newline))]"

definition vehicle_vin_pattern :: regex where
  \<comment> \<open>\<open>(?:V\.I\.N\.|VIN)[:\s]*([A-HJ-NPR-Z0-9]{17})\<close>\<close>
  "vehicle_vin_pattern =
     seq [alts [Lits ''V.I.N.'', Lits ''VIN''],
          label_end,
          Grp (exactly 17 (Cls False (''ABCDEFGH'' @ ''JKLMN'' @ ''P'' @ ''RSTUVWXYZ'' @ digit_chars)))]"

definition vehicle_plate_pattern :: regex where
  \<comment> \<open>\<open>(?:PLATE\s*NUMBER)[:\s]*([A-Za-z0-9]{2,8})\<close>\<close>
  "vehicle_plate_pattern =
     seq [Lits ''PLATE'', spaces, Lits ''NUMBER'',
          label_end,
          Grp (Rep (Cls False (upper_chars @ lower_chars @ digit_chars)) 2 (Some 8) True)]"

definition claim_type_pattern :: regex where
  \<comment> \<open>\<open>(?:CLAIM\s*TYPE|LINE\s*OF\s*BUSINESS)[:\s]*([^\n]+)\<close>\<close>
  "claim_type_pattern =
     seq [alts [seq [Lits ''CLAIM'', spaces, Lits ''TYPE''],
                seq [Lits ''LINE'', spaces, Lits ''OF'', spaces, Lits ''BUSINESS'']],
          label_end,
          Grp (one_or_more (Cls True newline))]"

definition estimated_damage_pattern :: regex where
  \<comment> \<open>\<open>(?:ESTIMATE\s*(?:AMOUNT|DAMAGE)|ESTIMATED\s*(?:DAMAGE|LOSS))[:\s]*\$?([0-9]{1,3}(?:,[0-9]{3})*(?:\.[0-9]{2})?)\<close>\<close>
  "estimated_damage_pattern =
     seq [alts [seq [Lits ''ESTIMATE'', spaces, alts [Lits ''AMOUNT'', Lits ''DAMAGE'']],
                seq [Lits ''ESTIMATED'', spaces, alts [Lits ''DAMAGE'', Lits ''LOSS'']]],
          label_end,
          optional (Lits ''$''),
          Grp (seq [Rep digit 1 (Some 3) True,
                    zero_or_more (seq [Lits '','', exactly 3 digit]),
                    optional (seq [Lits ''.'', exactly 2 digit])])]"

definition accident_description_pattern :: regex where
  \<comment> \<open>\<open>(?:DESCRIBE\s*(?:LOSS|ACCIDENT|DAMAGE)|DESCRIPTION)[:\s]*([^;]+(?:[;][^;]+)?)\<close>\<close>
  "accident_description_pattern =
     seq [alts [seq [Lits ''DESCRIBE'', spaces,
                     alts [Lits ''LOSS'', Lits ''ACCIDENT'', Lits ''DAMAGE'']],
                Lits ''DESCRIPTION''],
          label_end,
          Grp (seq [one_or_more (Cls True '';''),
                    optional (seq [Cls False '';'', one_or_more (Cls True '';'')])])]"

definition FIELD_PATTERNS :: "(string \<times> regex) list" where
  "FIELD_PATTERNS =
     [(''policy_number'', policy_number_pattern),
      (''policyholder_name'', policyholder_name_pattern),
      (''effective_date'', effective_date_pattern),
      (''incident_date'', incident_date_pattern),
      (''incident_time'', incident_time_pattern),
      (''incident_location'', incident_location_pattern),
      (''city_state_zip'', city_state_zip_pattern),
      (''claimant_name'', claimant_name_pattern),
      (''third_party'', third_party_pattern),
      (''contact_phone'', contact_phone_pattern),
      (''contact_email'', contact_email_pattern),
      (''asset_type'', asset_type_pattern),
      (''vehicle_vin'', vehicle_vin_pattern),
      (''vehicle_plate'', vehicle_plate_pattern),
      (''claim_type'', claim_type_pattern),
      (''estimated_damage'', estimated_damage_pattern),
      (''accident_description'', accident_description_pattern)]"

definition street_pattern :: regex where
  \<comment> \<open>\<open>(\w+\s+street)\<close>\<close>
  "street_pattern =
     Grp (seq [one_or_more (Cls False word_chars), one_or_more space, Lits ''street''])"

definition intersection_pattern :: regex where
  \<comment> \<open>\<open>intersection\s+of\s+([^.]+)\<close>\<close>
  "intersection_pattern =
     seq [Lits ''intersection'', one_or_more space, Lits ''of'', one_or_more space,
          Grp (one_or_more (Cls True ''.''))]"

section \<open>Field extraction (\<open>FieldExtractor.extract_fields\<close>)\<close>

subsection \<open>More string operations\<close>

definition str_remove :: "char \<Rightarrow> string \<Rightarrow> string" where
  \<comment> \<open>\<open>s.replace(c, "")\<close> for a one-character string \<open>c\<close>\<close>
  "str_remove c s = filter (\<lambda>x. x \<noteq> c) s"

fun title_loop :: "bool \<Rightarrow> string \<Rightarrow> string" where
  \<comment> \<open>The flag says whether the character before was a letter.\<close>
  "title_loop previous_is_cased [] = []"
| "title_loop previous_is_cased (c # cs) =
     (if c \<in> set lower_chars
      then (if previous_is_cased then c else upper_char c) # title_loop True cs
      else if c \<in> set upper_chars
      then (if previous_is_cased then lower_char c else c) # title_loop True cs
      else c # title_loop False cs)"

definition str_title :: "string \<Rightarrow> string" where
  \<comment> \<open>\<open>s.title()\<close>: a letter that follows a non-letter becomes upper case, every other
      letter lower case.\<close>
  "str_title s = title_loop False s"

subsection \<open>Parsing a number (\<open>float(s)\<close>)\<close>

text \<open>
  \<open>float\<close> accepts, between optional whitespace (for ASCII text the six characters
  of C's \<open>isspace\<close>; the separators 0x1C-0x1F that \<open>str.strip\<close> removes are not among
  them): an optional sign, then digits with an
  optional fraction and an optional exponent (\<open>12\<close>, \<open>12.\<close>, \<open>.5\<close>, \<open>1.5e-3\<close>), where
  single underscores may stand between digits; or, after the optional sign, one of the
  words \<open>inf\<close>, \<open>infinity\<close>, \<open>nan\<close> in any case. Everything else raises ValueError,
  which is the result \<open>None\<close> here.
\<close>

definition float_space_chars :: "char list" where
  "float_space_chars = [CHR 0x09, CHR 0x0A, CHR 0x0B, CHR 0x0C, CHR 0x0D, CHR 0x20]"

definition float_strip :: "string \<Rightarrow> string" where
  "float_strip s =
     rev (dropWhile (\<lambda>c. c \<in> set float_space_chars)
            (rev (dropWhile (\<lambda>c. c \<in> set float_space_chars) s)))"

definition is_digit :: "char \<Rightarrow> bool" where
  "is_digit c = (c \<in> set digit_chars)"

definition digit_value :: "char \<Rightarrow> nat" where
  "digit_value c =
     (case map_of (zip digit_chars [0, 1, 2, 3, 4, 5, 6, 7, 8, 9]) c of
        Some d \<Rightarrow> d
      | None \<Rightarrow> 0)"

definition nat_of_digits :: "string \<Rightarrow> nat" where
  "nat_of_digits ds = foldl (\<lambda>n c. 10 * n + digit_value c) 0 ds"

fun underscores_ok :: "bool \<Rightarrow> string \<Rightarrow> bool" where
  \<comment> \<open>every underscore stands between two digits; the flag says whether the character
      before was a digit\<close>
  "underscores_ok prev_digit [] = True"
| "underscores_ok prev_digit (c # cs) =
     (if c = CHR ''_''
      then prev_digit \<and> (case cs of [] \<Rightarrow> False | d # ds \<Rightarrow> is_digit d) \<and> underscores_ok False cs
      else underscores_ok (is_digit c) cs)"

definition parse_exponent :: "string \<Rightarrow> int option" where
  \<comment> \<open>what may follow the digits: nothing, or \<open>e\<close>, an optional sign and digits\<close>
  "parse_exponent s =
     (case s of
        [] \<Rightarrow> Some 0
      | c # cs \<Rightarrow>
          if c = CHR ''e'' \<or> c = CHR ''E'' then
            (case cs of
               [] \<Rightarrow> None
             | x # xs \<Rightarrow>
                 let (negative, ds) =
                       (if x = CHR ''-'' then (True, xs) else if x = CHR ''+'' then (False, xs)
                        else (False, cs))
                 in if ds \<noteq> [] \<and> list_all is_digit ds
                    then Some (if negative then - int (nat_of_digits ds) else int (nat_of_digits ds))
                    else None)
          else None)"

definition power10 :: "int \<Rightarrow> rat" where
  "power10 e = (if 0 \<le> e then 10 ^ nat e else 1 / 10 ^ nat (- e))"

definition parse_decimal :: "string \<Rightarrow> pynum option" where
  \<comment> \<open>an unsigned decimal number\<close>
  "parse_decimal s =
     (let int_part = takeWhile is_digit s;
          rest = dropWhile is_digit s;
          frac_part = (case rest of [] \<Rightarrow> [] | c # cs \<Rightarrow>
                         if c = CHR ''.'' then takeWhile is_digit cs else []);
          tail = (case rest of [] \<Rightarrow> [] | c # cs \<Rightarrow>
                    if c = CHR ''.'' then dropWhile is_digit cs else rest)
      in if int_part = [] \<and> frac_part = [] then None
         else (case parse_exponent tail of
                 None \<Rightarrow> None
               | Some e \<Rightarrow>
                   Some (Fin (of_nat (nat_of_digits (int_part @ frac_part))
                              / 10 ^ length frac_part * power10 e))))"

definition parse_unsigned :: "string \<Rightarrow> pynum option" where
  "parse_unsigned s =
     (if str_lower s \<in> set [''inf'', ''infinity''] then Some PosInf
      else if str_lower s = ''nan'' then Some NaN
      else parse_decimal s)"

fun negate :: "pynum \<Rightarrow> pynum" where
  "negate (Fin v) = Fin (- v)"
| "negate PosInf = NegInf"
| "negate NegInf = PosInf"
| "negate NaN = NaN"

definition py_float :: "string \<Rightarrow> pynum option" where
  "py_float s =
     (let t = float_strip s
      in if \<not> underscores_ok False t then None
         else
           (case str_remove CHR ''_'' t of
              [] \<Rightarrow> None
            | c # cs \<Rightarrow>
                if c = CHR ''+'' then parse_unsigned cs
                else if c = CHR ''-'' then map_option negate (parse_unsigned cs)
                else parse_unsigned (c # cs)))"

subsection \<open>The three steps of \<open>extract_fields\<close>\<close>

fun extract_loop :: "string \<Rightarrow> (string \<times> regex) list \<Rightarrow> pydict \<Rightarrow> py_error + pydict" where
  \<comment> \<open>The loop over \<open>FIELD_PATTERNS.items()\<close>. \<open>match.group(1)\<close> is \<open>None\<close> for a group
      that took no part in the match, and \<open>.strip()\<close> on it raises AttributeError.\<close>
  "extract_loop text [] extracted = Inr extracted"
| "extract_loop text ((field_name, pattern) # rest) extracted =
     (case re_search pattern text of
        Some (Some v) \<Rightarrow> extract_loop text rest (extracted(field_name \<mapsto> PStr (str_strip v)))
      | Some None \<Rightarrow> Inl AttributeError
      | None \<Rightarrow> extract_loop text rest (extracted(field_name \<mapsto> PNone)))"

definition fallback_search :: "regex \<Rightarrow> string \<Rightarrow> pydict \<Rightarrow> py_error + pydict" where
  \<comment> \<open>\<open>match = re.search(...); if match: extracted["incident_location"] =
      match.group(1).title()\<close>\<close>
  "fallback_search pattern desc extracted =
     (case re_search pattern desc of
        Some (Some v) \<Rightarrow> Inr (extracted(''incident_location'' \<mapsto> PStr (str_title v)))
      | Some None \<Rightarrow> Inl AttributeError
      | None \<Rightarrow> Inr extracted)"

definition location_fallback :: "pydict \<Rightarrow> py_error + pydict" where
  \<comment> \<open>A description that is true but no string has no \<open>.lower()\<close>.\<close>
  "location_fallback extracted =
     (if \<not> truthy (dict_get extracted ''incident_location'' PNone)
         \<and> truthy (dict_get extracted ''accident_description'' PNone)
      then
        (case dict_get extracted ''accident_description'' PNone of
           PStr d \<Rightarrow>
             (let desc = str_lower d
              in if str_in ''driveway'' desc
                 then Inr (extracted(''incident_location'' \<mapsto> PStr ''Driveway''))
                 else if str_in ''street'' desc
                 then fallback_search street_pattern desc extracted
                 else if str_in ''parking'' desc
                 then Inr (extracted(''incident_location'' \<mapsto> PStr ''Parking lot/garage''))
                 else if str_in ''intersection'' desc
                 then fallback_search intersection_pattern desc extracted
                 else Inr extracted)
         | _ \<Rightarrow> Inl AttributeError)
      else Inr extracted)"

definition damage_value :: "pydict \<Rightarrow> py_error + pydict" where
  \<comment> \<open>Sets \<open>estimated_damage_value\<close>. Only ValueError is caught; a damage entry that
      is true but no string has no \<open>.replace\<close>.\<close>
  "damage_value extracted =
     (if truthy (dict_get extracted ''estimated_damage'' PNone)
      then
        (case dict_get extracted ''estimated_damage'' PNone of
           PStr s \<Rightarrow>
             (case py_float (str_remove CHR ''$'' (str_remove CHR '','' s)) of
                Some v \<Rightarrow> Inr (extracted(''estimated_damage_value'' \<mapsto> PNum v))
              | None \<Rightarrow> Inr (extracted(''estimated_damage_value'' \<mapsto> PNum (Fin 0))))
         | _ \<Rightarrow> Inl AttributeError)
      else Inr (extracted(''estimated_damage_value'' \<mapsto> PNum (Fin 0))))"

definition extract_fields :: "string \<Rightarrow> py_error + pydict" where
  "extract_fields text =
     (case extract_loop text FIELD_PATTERNS Map.empty of
        Inl e \<Rightarrow> Inl e
      | Inr extracted \<Rightarrow>
          (case location_fallback extracted of
             Inl e \<Rightarrow> Inl e
           | Inr extracted' \<Rightarrow> damage_value extracted'))"

section \<open>The orchestrator (\<open>ClaimsProcessingAgent.process_claim\<close>)\<close>

record claim_result = routing_decision +
  error :: "string option"
  status :: string
  document_path :: "string option"
  extractedFields :: pydict
  missingFields :: "string list"
  fraudIndicators :: "string list option"

definition ends_with :: "string \<Rightarrow> string \<Rightarrow> bool" where
  \<comment> \<open>\<open>ends_with e s\<close>: \<open>s.endswith(e)\<close>\<close>
  "ends_with e s = starts_with (rev e) (rev s)"

definition clean_extracted_fields :: "pydict \<Rightarrow> pydict" where
  \<comment> \<open>\<open>_clean_extracted_fields\<close>: drops the \<open>None\<close> values and the keys ending in
      \<open>_value\<close>\<close>
  "clean_extracted_fields extracted_fields =
     (\<lambda>k. case extracted_fields k of
             None \<Rightarrow> None
           | Some v \<Rightarrow> if v \<noteq> PNone \<and> \<not> ends_with ''_value'' k then Some v else None)"

definition process_claim ::
  "(string \<Rightarrow> string + string) \<Rightarrow> nat \<Rightarrow> string \<Rightarrow> py_error + claim_result \<times> nat" where
  \<comment> \<open>\<open>parse_document\<close> is the text source: for a path it gives the document's text
      (\<open>Inr\<close>) or raises, and \<open>Inl\<close> carries the exception's message \<open>str(e)\<close>. The
      number is \<open>self.processed_count\<close>, returned as it stands after the call. An
      exception of the later steps is not caught.\<close>
  "process_claim parse_document processed_count path =
     (case parse_document path of
        Inl e \<Rightarrow>
          Inr (\<lparr>recommendedRoute = ''MANUAL_REVIEW'',
                reasoning = ''Document parsing failed: '' @ e,
                error = Some e,
                status = ''FAILED'',
                document_path = None,
                extractedFields = Map.empty,
                missingFields = MANDATORY_FIELDS,
                fraudIndicators = None\<rparr>, processed_count)
      | Inr document_text \<Rightarrow>
          (case extract_fields document_text of
             Inl err \<Rightarrow> Inl err
           | Inr extracted_fields \<Rightarrow>
               (let missing_fields = validate_fields extracted_fields;
                    fraud_indicators = check_for_fraud_indicators document_text
                in case determine_route extracted_fields missing_fields fraud_indicators of
                     Inl err \<Rightarrow> Inl err
                   | Inr routing_decision \<Rightarrow>
                       Inr (\<lparr>recommendedRoute = recommendedRoute routing_decision,
                             reasoning = reasoning routing_decision,
                             error = None,
                             status = ''SUCCESS'',
                             document_path = Some path,
                             extractedFields = clean_extracted_fields extracted_fields,
                             missingFields = missing_fields,
                             fraudIndicators = Some fraud_indicators\<rparr>,
                            processed_count + 1))))"

section \<open>Notions the results are stated with\<close>

definition field_missing :: "pydict \<Rightarrow> string \<Rightarrow> bool" where
  \<comment> \<open>the condition under which the validation loop appends a field\<close>
  "field_missing extracted_fields field =
     (\<not> truthy (dict_get extracted_fields field PNone)
      \<or> is_placeholder (dict_get extracted_fields field PNone))"


definition occurs_ignoring_case :: "string \<Rightarrow> string \<Rightarrow> bool" where
  \<comment> \<open>The specification's "case-insensitive substring": some stretch of the text equals
      the keyword once both are lower-cased. No word boundary is asked for.\<close>
  "occurs_ignoring_case k text =
     (\<exists>pre mid suf. text = pre @ mid @ suf \<and> str_lower mid = str_lower k)"


subsection \<open>What a match can read and capture\<close>

fun allowed :: "regex \<Rightarrow> char \<Rightarrow> bool" where
  \<comment> \<open>the characters a match of the pattern can read\<close>
  "allowed (Lits l) c = (lower_char c \<in> set (map lower_char l))"
| "allowed (Cls negated cs) c = in_class negated cs c"
| "allowed Eps c = False"
| "allowed (Cat r1 r2) c = (allowed r1 c \<or> allowed r2 c)"
| "allowed (Alt r1 r2) c = (allowed r1 c \<or> allowed r2 c)"
| "allowed (Rep r m n greedy) c = allowed r c"
| "allowed (Grp r) c = allowed r c"
| "allowed (Look r) c = False"
| "allowed Eol c = False"

fun group_allowed :: "regex \<Rightarrow> char \<Rightarrow> bool" where
  \<comment> \<open>the characters group 1 can hold after a match of the pattern\<close>
  "group_allowed (Grp r) c = allowed r c"
| "group_allowed (Cat r1 r2) c = (group_allowed r1 c \<or> group_allowed r2 c)"
| "group_allowed (Alt r1 r2) c = (group_allowed r1 c \<or> group_allowed r2 c)"
| "group_allowed (Rep r m n greedy) c = group_allowed r c"
| "group_allowed r c = False"

fun sets_group :: "regex \<Rightarrow> bool" where
  \<comment> \<open>every match of the pattern passes through its group\<close>
  "sets_group (Grp r) = True"
| "sets_group (Cat r1 r2) = (sets_group r1 \<or> sets_group r2)"
| "sets_group (Alt r1 r2) = (sets_group r1 \<and> sets_group r2)"
| "sets_group (Rep r m n greedy) = (0 < m \<and> sets_group r)"
| "sets_group r = False"

definition match_ok ::
  "(char \<Rightarrow> bool) \<Rightarrow> (char \<Rightarrow> bool) \<Rightarrow> bool \<Rightarrow> mstate \<Rightarrow> mstate \<Rightarrow> bool" where
  \<comment> \<open>\<open>match_ok A B must before after\<close>: the match read a stretch of \<open>A\<close>-characters off
      the front of the text; the group holds what it held before or a string of
      \<open>B\<close>-characters; and it holds something when \<open>must\<close> is set.\<close>
  "match_ok A B must before after =
     ((\<exists>w. fst before = w @ fst after \<and> list_all A w)
      \<and> (case snd after of
           None \<Rightarrow> snd before = None \<and> \<not> must
         | Some v \<Rightarrow> snd before = Some v \<or> list_all B v))"

definition body_ok ::
  "(char \<Rightarrow> bool) \<Rightarrow> (char \<Rightarrow> bool) \<Rightarrow> bool
   \<Rightarrow> (string \<Rightarrow> string option \<Rightarrow> mstate list) \<Rightarrow> bool" where
  "body_ok A B must body =
     (\<forall>s g y. y \<in> set (body s g) \<longrightarrow> match_ok A B must (s, g) y)"

definition matched_value :: "regex \<Rightarrow> string \<Rightarrow> pyval" where
  \<comment> \<open>what the extraction loop stores for a pattern: the trimmed group of the first
      match, or \<open>None\<close>\<close>
  "matched_value p text =
     (case re_search p text of Some (Some v) \<Rightarrow> PStr (str_strip v) | _ \<Rightarrow> PNone)"

definition is_text :: "pyval \<Rightarrow> bool" where
  "is_text v = (case v of PNum n \<Rightarrow> False | _ \<Rightarrow> True)"

definition matched_fields :: "string \<Rightarrow> pydict" where
  \<comment> \<open>the mapping the extraction loop builds\<close>
  "matched_fields text =
     (\<lambda>k. case map_of FIELD_PATTERNS k of
             Some p \<Rightarrow> Some (matched_value p text)
           | None \<Rightarrow> None)"

definition fallback_location :: "string \<Rightarrow> pyval" where
  \<comment> \<open>The specification's location fallback for a description \<open>d\<close>: the heuristics
      driveway, street, parking, intersection in this order, of which only the first
      whose trigger word occurs in the lower-cased description is applied; \<open>None\<close>
      when that heuristic finds nothing or no trigger word occurs.\<close>
  "fallback_location d =
     (let desc = str_lower d
      in if str_in ''driveway'' desc then PStr ''Driveway''
         else if str_in ''street'' desc then
           (case re_search street_pattern desc of
              Some (Some v) \<Rightarrow> PStr (str_title v)
            | _ \<Rightarrow> PNone)
         else if str_in ''parking'' desc then PStr ''Parking lot/garage''
         else if str_in ''intersection'' desc then
           (case re_search intersection_pattern desc of
              Some (Some v) \<Rightarrow> PStr (str_title v)
            | _ \<Rightarrow> PNone)
         else PNone)"

definition damage_number :: "pyval \<Rightarrow> pynum" where
  \<comment> \<open>The specification's damage normalisation of the stored \<open>estimated_damage\<close>:
      the string without its \<open>$\<close> and \<open>,\<close> characters parsed as a float; 0 when the
      value is absent or the text does not parse.\<close>
  "damage_number value =
     (case value of
        PStr s \<Rightarrow>
          (case py_float (str_remove CHR ''$'' (str_remove CHR '','' s)) of
             Some n \<Rightarrow> n
           | None \<Rightarrow> Fin 0)
      | _ \<Rightarrow> Fin 0)"

definition scenario_a :: string where
  \<comment> \<open>the document of the specification's first end-to-end scenario, one field a line\<close>
  "scenario_a =
     ''POLICY NUMBER: ABC123'' @ newline @ ''NAME OF INSURED: Jane Doe'' @ newline
     @ ''DATE OF LOSS: 01/02/2024'' @ newline @ ''LOCATION OF LOSS: 123 Main St'' @ newline
     @ ''CLAIM TYPE: Auto'' @ newline @ ''ESTIMATED DAMAGE: $5,000''"

section \<open>Results\<close>

subsection \<open>String helpers\<close>

lemma starts_with_iff: "starts_with p s \<longleftrightarrow> (\<exists>t. s = p @ t)"
  by (induction p arbitrary: s) (auto split: list.splits)

lemma str_in_iff: "str_in k s \<longleftrightarrow> (\<exists>pre suf. s = pre @ k @ suf)"
proof (induction s)
  case Nil
  then show ?case by auto
next
  case (Cons c cs)
  show ?case
  proof
    assume "str_in k (c # cs)"
    then consider "starts_with k (c # cs)" | "str_in k cs" by auto
    then show "\<exists>pre suf. c # cs = pre @ k @ suf"
    proof cases
      case 1
      then obtain t where "c # cs = k @ t" by (auto simp: starts_with_iff)
      then have "c # cs = [] @ k @ t" by simp
      then show ?thesis by blast
    next
      case 2
      then obtain pre suf where "cs = pre @ k @ suf" using Cons.IH by blast
      then have "c # cs = (c # pre) @ k @ suf" by simp
      then show ?thesis by blast
    qed
  next
    assume "\<exists>pre suf. c # cs = pre @ k @ suf"
    then obtain pre suf where eq: "c # cs = pre @ k @ suf" by blast
    show "str_in k (c # cs)"
    proof (cases pre)
      case Nil
      then have "starts_with k (c # cs)" using eq by (auto simp: starts_with_iff)
      then show ?thesis by simp
    next
      case (Cons p ps)
      then have "cs = ps @ k @ suf" using eq by simp
      then have "str_in k cs" using Cons.IH by blast
      then show ?thesis by simp
    qed
  qed
qed

subsection \<open>The loops as filters\<close>

lemma validate_loop_filter:
  "validate_loop m fs acc = acc @ filter (field_missing m) fs"
  by (induction fs arbitrary: acc) (auto simp: field_missing_def Let_def)

lemma validate_fields_filter:
  "validate_fields m = filter (field_missing m) MANDATORY_FIELDS"
  by (simp add: validate_fields_def validate_loop_filter)

lemma fraud_loop_filter:
  "fraud_loop t ks acc = acc @ filter (\<lambda>k. str_in k t) ks"
  by (induction ks arbitrary: acc) auto

lemma check_for_fraud_indicators_filter:
  "check_for_fraud_indicators text = filter (\<lambda>k. str_in k (str_lower text)) fraud_keywords"
  by (simp add: check_for_fraud_indicators_def fraud_loop_filter)

lemma distinct_MANDATORY_FIELDS: "distinct MANDATORY_FIELDS"
  by (simp add: MANDATORY_FIELDS_def)

lemma distinct_fraud_keywords: "distinct fraud_keywords"
  by (simp add: fraud_keywords_def)

subsection \<open>Validation\<close>

text \<open>
  C6. For every extracted-fields mapping the list \<open>validate_fields\<close> returns is a
  subsequence of \<open>MANDATORY_FIELDS\<close> (policy_number, policyholder_name, incident_date,
  incident_location, claim_type, estimated_damage): its elements stand in the declared
  order, none twice, and none from outside the mandatory set.
\<close>

theorem validate_fields_subseq:
  "subseq (validate_fields m) MANDATORY_FIELDS
   \<and> distinct (validate_fields m)
   \<and> set (validate_fields m) \<subseteq> set MANDATORY_FIELDS"
  by (simp add: validate_fields_filter distinct_MANDATORY_FIELDS)

text \<open>
  C10. A mandatory field that holds the empty string, a value that is neither absent nor
  one of the placeholders, is reported missing: the loop's test \<open>not value\<close> is false
  for every falsy value, the empty string as well as \<open>None\<close>.
\<close>

theorem validate_fields_empty_string:
  assumes "field \<in> set MANDATORY_FIELDS" and "m field = Some (PStr '''')"
  shows "field \<in> set (validate_fields m)
         \<and> dict_get m field PNone \<noteq> PNone
         \<and> \<not> is_placeholder (dict_get m field PNone)"
  using assms
  by (simp add: validate_fields_filter field_missing_def dict_get_def str_strip_def
      str_lower_def placeholder_values_def)

theorem validate_fields_empty_string_witness:
  "''claim_type'' \<in> set MANDATORY_FIELDS
   \<and> [''claim_type'' \<mapsto> PStr ''''] ''claim_type'' = Some (PStr '''')
   \<and> ''claim_type'' \<in> set (validate_fields [''claim_type'' \<mapsto> PStr ''''])
   \<and> \<not> is_placeholder (dict_get [''claim_type'' \<mapsto> PStr ''''] ''claim_type'' PNone)"
proof -
  have a: "''claim_type'' \<in> set MANDATORY_FIELDS"
    by (simp add: MANDATORY_FIELDS_def)
  have b: "[''claim_type'' \<mapsto> PStr ''''] ''claim_type'' = Some (PStr '''')"
    by simp
  show ?thesis
    using a b
      validate_fields_empty_string
        [where field = "''claim_type''" and m = "[''claim_type'' \<mapsto> PStr '''']"]
    by simp
qed





subsection \<open>Fraud keywords\<close>

lemma str_lower_fraud_keyword: "k \<in> set fraud_keywords \<Longrightarrow> str_lower k = k"
  by (auto simp: fraud_keywords_def str_lower_def lower_char_def)

lemma map_eq_append3:
  assumes "map f xs = p @ k @ s"
  shows "\<exists>pre mid suf. xs = pre @ mid @ suf \<and> map f mid = k"
proof -
  let ?pre = "take (length p) xs"
  let ?mid = "take (length k) (drop (length p) xs)"
  let ?suf = "drop (length k) (drop (length p) xs)"
  have "xs = ?pre @ drop (length p) xs" by simp
  also have "drop (length p) xs = ?mid @ ?suf" by (simp only: append_take_drop_id)
  finally have 1: "xs = ?pre @ ?mid @ ?suf" .
  have "map f ?mid = take (length k) (drop (length p) (map f xs))"
    by (simp add: take_map drop_map)
  then have 2: "map f ?mid = k" using assms by simp
  from 1 2 show ?thesis by blast
qed

lemma str_in_lower_iff:
  "str_in k (str_lower text) \<longleftrightarrow> (\<exists>pre mid suf. text = pre @ mid @ suf \<and> str_lower mid = k)"
proof
  assume "str_in k (str_lower text)"
  then obtain p s where "map lower_char text = p @ k @ s"
    by (auto simp: str_in_iff str_lower_def)
  from map_eq_append3 [OF this]
  show "\<exists>pre mid suf. text = pre @ mid @ suf \<and> str_lower mid = k"
    by (simp add: str_lower_def)
next
  assume "\<exists>pre mid suf. text = pre @ mid @ suf \<and> str_lower mid = k"
  then obtain pre mid suf where "text = pre @ mid @ suf" and "str_lower mid = k"
    by blast
  then have "str_lower text = str_lower pre @ k @ str_lower suf"
    by (auto simp: str_lower_def)
  then show "str_in k (str_lower text)"
    unfolding str_in_iff by blast
qed

text \<open>
  C8. For every text, \<open>check_for_fraud_indicators\<close> returns exactly the keywords of the
  fixed list fraud, inconsistent, staged, suspicious, falsified that occur in the text
  as a case-insensitive substring (no word boundary needed), each at most once however
  often it occurs, in the order of the keyword list and not of the text.
\<close>

theorem check_for_fraud_indicators_spec:
  "check_for_fraud_indicators text = filter (\<lambda>k. occurs_ignoring_case k text) fraud_keywords
   \<and> distinct (check_for_fraud_indicators text)
   \<and> subseq (check_for_fraud_indicators text) fraud_keywords"
proof -
  have "filter (\<lambda>k. str_in k (str_lower text)) fraud_keywords
        = filter (\<lambda>k. occurs_ignoring_case k text) fraud_keywords"
  proof (rule filter_cong [OF refl])
    fix k assume "k \<in> set fraud_keywords"
    then show "str_in k (str_lower text) = occurs_ignoring_case k text"
      by (simp add: str_in_lower_iff occurs_ignoring_case_def str_lower_fraud_keyword)
  qed
  then show ?thesis
    by (simp add: check_for_fraud_indicators_filter distinct_fraud_keywords)
qed

lemma check_for_fraud_indicators_example:
  "check_for_fraud_indicators ''Suspicious: the crash was STAGED; unstaged, suspicious.''
     = [''staged'', ''suspicious'']"
  by (simp add: check_for_fraud_indicators_def fraud_keywords_def str_lower_def lower_char_def)

subsection \<open>Routing\<close>

lemma determine_route_label:
  "determine_route m missing fraud = Inr r \<Longrightarrow> recommendedRoute r \<in> set all_routes"
  by (auto simp: determine_route_def damage_rule_def all_routes_def Let_def
      split: if_splits pyval.splits)

lemma determine_route_raises_iff:
  "(\<exists>e. determine_route m missing fraud = Inl e) \<longleftrightarrow>
     missing = [] \<and> fraud = []
     \<and> (case dict_get m ''claim_type'' (PStr '''') of
          PStr s \<Rightarrow>
            \<not> str_in ''injury'' (str_lower s) \<and> \<not> str_in ''bodily'' (str_lower s)
            \<and> \<not> str_in ''personal'' (str_lower s)
            \<and> (\<forall>n. dict_get m ''estimated_damage_value'' (PNum (Fin 0)) \<noteq> PNum n)
        | _ \<Rightarrow> True)"
  by (auto simp: determine_route_def damage_rule_def Let_def split: if_splits pyval.splits)

text \<open>
  C1 asks that \<open>determine_route\<close> return one of the five labels for every mapping and
  every pair of lists, a mapping without a claim type included. The code reads the
  claim type with \<open>extracted_fields.get("claim_type", "")\<close>, whose default covers a
  mapping with no such key, but the extractor stores \<open>None\<close> under the key when the
  pattern finds nothing, and on \<open>None\<close> the call \<open>.lower()\<close> raises AttributeError.
  With both lists empty the call below raises instead of returning a route.
\<close>

theorem determine_route_none_claim_type:
  "determine_route [''claim_type'' \<mapsto> PNone, ''estimated_damage_value'' \<mapsto> PNum (Fin 0)] [] []
     = Inl AttributeError"
  by (simp add: determine_route_def dict_get_def)

text \<open>
  C2. The rules are tried in the order missing fields, fraud indicators, injury claim
  type, damage threshold, and the first that matches decides: whenever the missing-fields
  list is not empty the route is MANUAL_REVIEW, fraud indicators or not; and whenever the
  missing-fields list is empty and the fraud-indicators list is not, the route is
  INVESTIGATION_FLAG, whatever the claim type.
\<close>

theorem determine_route_precedence:
  "(missing \<noteq> [] \<longrightarrow>
      determine_route m missing fraud =
        Inr \<lparr>recommendedRoute = ''MANUAL_REVIEW'',
             reasoning = ''Missing mandatory fields: '' @ join '', '' missing\<rparr>)
   \<and> (missing = [] \<and> fraud \<noteq> [] \<longrightarrow>
      determine_route m missing fraud =
        Inr \<lparr>recommendedRoute = ''INVESTIGATION_FLAG'',
             reasoning = ''Potential fraud indicators detected: '' @ join '', '' fraud\<rparr>)"
  by (simp add: determine_route_def)

theorem determine_route_precedence_witness:
  "determine_route [''claim_type'' \<mapsto> PStr ''Bodily Injury'']
      [''policy_number'', ''incident_date''] [''staged''] =
     Inr \<lparr>recommendedRoute = ''MANUAL_REVIEW'',
          reasoning = ''Missing mandatory fields: policy_number, incident_date''\<rparr>
   \<and> determine_route [''claim_type'' \<mapsto> PStr ''Bodily Injury''] [] [''staged'', ''fraud''] =
     Inr \<lparr>recommendedRoute = ''INVESTIGATION_FLAG'',
          reasoning = ''Potential fraud indicators detected: staged, fraud''\<rparr>"
  using
    determine_route_precedence
      [of "[''policy_number'', ''incident_date'']"
          "[''claim_type'' \<mapsto> PStr ''Bodily Injury'']" "[''staged'']"]
    determine_route_precedence
      [of "[]" "[''claim_type'' \<mapsto> PStr ''Bodily Injury'']" "[''staged'', ''fraud'']"]
  by simp

text \<open>
  C3. With no missing field, no fraud indicator and a claim type that contains none of
  injury, bodily, personal, the route follows from comparing \<open>estimated_damage_value\<close>
  with the threshold 25000: every value below 25000 gives FAST_TRACK, and every value of
  25000 or more, 25000 itself included, gives STANDARD_REVIEW.
\<close>

theorem determine_route_threshold:
  assumes "dict_get m ''claim_type'' (PStr '''') = PStr s"
    and "\<not> str_in ''injury'' (str_lower s)"
    and "\<not> str_in ''bodily'' (str_lower s)"
    and "\<not> str_in ''personal'' (str_lower s)"
    and "dict_get m ''estimated_damage_value'' (PNum (Fin 0)) = PNum (Fin v)"
  shows "\<exists>r. determine_route m [] [] = Inr r
           \<and> recommendedRoute r = (if v < 25000 then ''FAST_TRACK'' else ''STANDARD_REVIEW'')"
  using assms
  by (simp add: determine_route_def damage_rule_def FAST_TRACK_THRESHOLD_def)

theorem determine_route_threshold_witness:
  "(\<exists>r. determine_route
          [''claim_type'' \<mapsto> PStr ''Auto'', ''estimated_damage_value'' \<mapsto> PNum (Fin (2499999 / 100))]
          [] [] = Inr r
        \<and> recommendedRoute r = ''FAST_TRACK'')
   \<and> (\<exists>r. determine_route
          [''claim_type'' \<mapsto> PStr ''Auto'', ''estimated_damage_value'' \<mapsto> PNum (Fin 25000)]
          [] [] = Inr r
        \<and> recommendedRoute r = ''STANDARD_REVIEW'')"
proof -
  let ?lo = "[''claim_type'' \<mapsto> PStr ''Auto'', ''estimated_damage_value'' \<mapsto> PNum (Fin (2499999 / 100))]"
  let ?hi = "[''claim_type'' \<mapsto> PStr ''Auto'', ''estimated_damage_value'' \<mapsto> PNum (Fin 25000)]"
  have ct: "dict_get ?lo ''claim_type'' (PStr '''') = PStr ''Auto''"
    "dict_get ?hi ''claim_type'' (PStr '''') = PStr ''Auto''"
    by (simp_all add: dict_get_def)
  have no: "\<not> str_in ''injury'' (str_lower ''Auto'')" "\<not> str_in ''bodily'' (str_lower ''Auto'')"
    "\<not> str_in ''personal'' (str_lower ''Auto'')"
    by (simp_all add: str_lower_def lower_char_def)
  have dv: "dict_get ?lo ''estimated_damage_value'' (PNum (Fin 0)) = PNum (Fin (2499999 / 100))"
    "dict_get ?hi ''estimated_damage_value'' (PNum (Fin 0)) = PNum (Fin 25000)"
    by (simp_all add: dict_get_def)
  show ?thesis
    using determine_route_threshold [OF ct(1) no dv(1)]
      determine_route_threshold [OF ct(2) no dv(2)]
    by simp
qed

text \<open>
  The same rule on a value that is not finite: \<open>-inf\<close> is below the threshold, \<open>inf\<close> is
  not, and \<open>nan\<close>, for which every comparison is false, goes to STANDARD_REVIEW.
\<close>

lemma determine_route_damage:
  assumes "dict_get m ''claim_type'' (PStr '''') = PStr s"
    and "\<not> str_in ''injury'' (str_lower s)"
    and "\<not> str_in ''bodily'' (str_lower s)"
    and "\<not> str_in ''personal'' (str_lower s)"
    and "dict_get m ''estimated_damage_value'' (PNum (Fin 0)) = PNum n"
  shows "\<exists>r. determine_route m [] [] = Inr r
           \<and> recommendedRoute r =
               (if num_less n 25000 then ''FAST_TRACK'' else ''STANDARD_REVIEW'')"
  using assms
  by (simp add: determine_route_def damage_rule_def FAST_TRACK_THRESHOLD_def)

subsection \<open>Pattern matching\<close>

lemma match_ok_refl: "match_ok A B False x x"
  by (auto simp: match_ok_def split: option.splits)

lemma match_ok_weaken:
  assumes "match_ok A B must x y"
    and "\<And>c. A c \<Longrightarrow> A' c" and "\<And>c. B c \<Longrightarrow> B' c" and "must' \<Longrightarrow> must"
  shows "match_ok A' B' must' x y"
proof -
  have 1: "list_all A w \<Longrightarrow> list_all A' w" for w
    using assms(2) by (induction w) auto
  have 2: "list_all B w \<Longrightarrow> list_all B' w" for w
    using assms(3) by (induction w) auto
  show ?thesis
    using assms(1,4) 1 2 by (auto simp: match_ok_def split: option.splits)
qed

lemma match_ok_trans:
  assumes "match_ok A B m1 x y" and "match_ok A B m2 y z"
  shows "match_ok A B (m1 \<or> m2) x z"
proof -
  obtain w1 where w1: "fst x = w1 @ fst y" "list_all A w1"
    using assms(1) by (auto simp: match_ok_def)
  obtain w2 where w2: "fst y = w2 @ fst z" "list_all A w2"
    using assms(2) by (auto simp: match_ok_def)
  have "fst x = (w1 @ w2) @ fst z" "list_all A (w1 @ w2)"
    using w1 w2 by auto
  then have front: "\<exists>w. fst x = w @ fst z \<and> list_all A w" by blast
  show ?thesis
    using assms front unfolding match_ok_def
    by (cases "snd z"; cases "snd y") auto
qed

lemma match_lits_ok:
  "match_lits l s = Some rest \<Longrightarrow> \<exists>w. s = w @ rest \<and> list_all (allowed (Lits l)) w"
proof (induction l s rule: match_lits.induct)
  case (1 s)
  then show ?case by auto
next
  case (2 l ls)
  then show ?case by simp
next
  case (3 l ls c cs)
  from "3.prems" have eq: "lower_char c = lower_char l" and rest: "match_lits ls cs = Some rest"
    by (auto split: if_splits)
  from "3.IH" [OF eq rest] obtain w where w: "cs = w @ rest" "list_all (allowed (Lits ls)) w"
    by blast
  have "list_all (allowed (Lits (l # ls))) w"
    using w(2) by (induction w) auto
  then have "c # cs = (c # w) @ rest \<and> list_all (allowed (Lits (l # ls))) (c # w)"
    using w(1) eq by simp
  then show ?case by blast
qed

lemma rep_opt_ok:
  assumes "body_ok A B must body"
  shows "y \<in> set (rep_opt body greedy k s g) \<Longrightarrow> match_ok A B False (s, g) y"
proof (induction k arbitrary: s g y)
  case 0
  then show ?case by (simp add: match_ok_refl)
next
  case (Suc k)
  from Suc.prems consider "y = (s, g)"
    | s1 g1 where "(s1, g1) \<in> set (body s g)" "y \<in> set (rep_opt body greedy k s1 g1)"
    by (auto simp: Let_def split: if_splits)
  then show ?case
  proof cases
    case 1
    then show ?thesis by (simp add: match_ok_refl)
  next
    case 2
    have "match_ok A B must (s, g) (s1, g1)"
      using assms 2(1) by (auto simp: body_ok_def)
    then have a: "match_ok A B False (s, g) (s1, g1)"
      by (rule match_ok_weaken) auto
    have b: "match_ok A B False (s1, g1) y"
      using Suc.IH 2(2) by blast
    from match_ok_trans [OF a b] show ?thesis by simp
  qed
qed

lemma rep_min_ok:
  assumes "body_ok A B must body" and "body_ok A B False (\<lambda>s g. cont s g)"
  shows "y \<in> set (rep_min body m cont s g) \<Longrightarrow> match_ok A B (0 < m \<and> must) (s, g) y"
proof (induction m arbitrary: s g y)
  case 0
  then have "y \<in> set (cont s g)" by simp
  with assms(2) have "match_ok A B False (s, g) y" unfolding body_ok_def by blast
  then show ?case by simp
next
  case (Suc m)
  from Suc.prems obtain s1 g1 where
    1: "(s1, g1) \<in> set (body s g)" and 2: "y \<in> set (rep_min body m cont s1 g1)"
    by auto
  have a: "match_ok A B must (s, g) (s1, g1)"
    using assms(1) 1 by (auto simp: body_ok_def)
  have "match_ok A B (0 < m \<and> must) (s1, g1) y"
    using Suc.IH 2 by blast
  then have b: "match_ok A B False (s1, g1) y"
    by (rule match_ok_weaken) auto
  from match_ok_trans [OF a b] show ?case by simp
qed

lemma allowed_funs:
  "allowed (Rep r m n greedy) = allowed r"
  "allowed (Grp r) = allowed r"
  "group_allowed (Grp r) = allowed r"
  "group_allowed (Rep r m n greedy) = group_allowed r"
  by (rule ext, simp)+

lemma rmatch_ok:
  "y \<in> set (rmatch r s g) \<Longrightarrow> match_ok (allowed r) (group_allowed r) (sets_group r) (s, g) y"
proof (induction r arbitrary: s g y)
  case (Lits l)
  then obtain rest where 1: "match_lits l s = Some rest" and 2: "y = (rest, g)"
    by (cases "match_lits l s") auto
  from match_lits_ok [OF 1] show ?case
    using 2 by (auto simp: match_ok_def simp del: allowed.simps split: option.splits)
next
  case (Cls negated cs)
  then obtain c where "s = c # fst y" "in_class negated cs c" "snd y = g"
    by (auto split: list.splits if_splits)
  then have "fst (s, g) = [c] @ fst y \<and> list_all (allowed (Cls negated cs)) [c]"
    by simp
  then show ?case
    using \<open>snd y = g\<close> unfolding match_ok_def by (auto split: option.splits)
next
  case Eps
  then show ?case by (simp add: match_ok_refl)
next
  case (Cat r1 r2)
  from Cat.prems obtain s1 g1 where
    1: "(s1, g1) \<in> set (rmatch r1 s g)" and 2: "y \<in> set (rmatch r2 s1 g1)"
    by auto
  have a: "match_ok (allowed (Cat r1 r2)) (group_allowed (Cat r1 r2)) (sets_group r1) (s, g) (s1, g1)"
    by (rule match_ok_weaken [OF Cat.IH(1) [OF 1]]) auto
  have b: "match_ok (allowed (Cat r1 r2)) (group_allowed (Cat r1 r2)) (sets_group r2) (s1, g1) y"
    by (rule match_ok_weaken [OF Cat.IH(2) [OF 2]]) auto
  from match_ok_trans [OF a b] show ?case by (simp only: sets_group.simps)
next
  case (Alt r1 r2)
  from Alt.prems consider "y \<in> set (rmatch r1 s g)" | "y \<in> set (rmatch r2 s g)"
    by auto
  then show ?case
  proof cases
    case 1
    show ?thesis by (rule match_ok_weaken [OF Alt.IH(1) [OF 1]]) auto
  next
    case 2
    show ?thesis by (rule match_ok_weaken [OF Alt.IH(2) [OF 2]]) auto
  qed
next
  case (Rep r m n greedy)
  let ?A = "allowed r" and ?B = "group_allowed r"
  have body: "body_ok ?A ?B (sets_group r) (rmatch r)"
    using Rep.IH by (auto simp: body_ok_def)
  have cont: "body_ok ?A ?B False
      (\<lambda>s' g'. rep_opt (rmatch r) greedy (case n of None \<Rightarrow> length s' | Some k \<Rightarrow> k - m) s' g')"
    using rep_opt_ok [OF body] by (auto simp: body_ok_def)
  from Rep.prems have "y \<in> set (rep_min (rmatch r) m
       (\<lambda>s' g'. rep_opt (rmatch r) greedy (case n of None \<Rightarrow> length s' | Some k \<Rightarrow> k - m) s' g')
       s g)"
    by simp
  from rep_min_ok [OF body cont this] show ?case
    by (simp only: allowed_funs sets_group.simps)
next
  case (Grp r)
  from Grp.prems obtain s1 g1 where
    1: "(s1, g1) \<in> set (rmatch r s g)" and 2: "y = (s1, Some (take (length s - length s1) s))"
    by auto
  from Grp.IH [OF 1] obtain w where w: "s = w @ s1" "list_all (allowed r) w"
    by (auto simp: match_ok_def)
  then have "take (length s - length s1) s = w" by simp
  then show ?case
    using w 2 by (simp add: match_ok_def allowed_funs del: allowed.simps group_allowed.simps)
next
  case (Look r)
  then have "y = (s, g)" by (auto split: if_splits)
  then show ?case by (simp add: match_ok_refl)
next
  case Eol
  then have "y = (s, g)" by (auto split: list.splits if_splits)
  then show ?case by (simp add: match_ok_refl)
qed

lemma re_search_ok:
  assumes "re_search r s = Some g"
  shows "(sets_group r \<longrightarrow> g \<noteq> None) \<and> (\<forall>v. g = Some v \<longrightarrow> list_all (group_allowed r) v)"
  using assms
proof (induction s)
  case Nil
  then obtain rest others where "rmatch r [] None = (rest, g) # others"
    by (auto split: list.splits)
  then have "(rest, g) \<in> set (rmatch r [] None)" by simp
  from rmatch_ok [OF this] show ?case
    by (auto simp: match_ok_def split: option.splits)
next
  case (Cons c cs)
  show ?case
  proof (cases "rmatch r (c # cs) None")
    case Nil
    then show ?thesis using Cons by simp
  next
    case (Cons x xs)
    then have "x = (fst x, g)" using Cons.prems by (auto split: prod.splits)
    then have "(fst x, g) \<in> set (rmatch r (c # cs) None)" using Cons by simp
    from rmatch_ok [OF this] show ?thesis
      by (auto simp: match_ok_def split: option.splits)
  qed
qed

subsection \<open>The extraction loop\<close>

lemmas pattern_defs =
  policy_number_pattern_def policyholder_name_pattern_def effective_date_pattern_def
  incident_date_pattern_def incident_time_pattern_def incident_location_pattern_def
  city_state_zip_pattern_def claimant_name_pattern_def third_party_pattern_def
  contact_phone_pattern_def contact_email_pattern_def asset_type_pattern_def
  vehicle_vin_pattern_def vehicle_plate_pattern_def claim_type_pattern_def
  estimated_damage_pattern_def accident_description_pattern_def
  street_pattern_def intersection_pattern_def

lemmas builder_defs =
  seq_def zero_or_more_def one_or_more_def one_or_more_lazy_def optional_def exactly_def
  space_def spaces_def label_end_def digit_def date_pattern_def

lemma field_patterns_set_group: "(k, p) \<in> set FIELD_PATTERNS \<Longrightarrow> sets_group p"
  by (auto simp: FIELD_PATTERNS_def pattern_defs builder_defs)

lemma fallback_patterns_set_group: "sets_group street_pattern" "sets_group intersection_pattern"
  by (simp_all add: pattern_defs builder_defs)

lemma distinct_field_names: "distinct (map fst FIELD_PATTERNS)"
  by (simp add: FIELD_PATTERNS_def)

lemma re_search_group:
  assumes "sets_group p"
  shows "re_search p doc = None \<or> (\<exists>v. re_search p doc = Some (Some v))"
proof (cases "re_search p doc")
  case None
  then show ?thesis by simp
next
  case (Some g)
  with re_search_ok [OF Some] assms show ?thesis by auto
qed

lemma matched_value_text: "is_text (matched_value p doc)"
  by (simp add: matched_value_def is_text_def split: option.splits)

lemma extract_loop_eq:
  assumes "distinct (map fst ps)" and "\<And>k p. (k, p) \<in> set ps \<Longrightarrow> sets_group p"
  shows "extract_loop doc ps m =
           Inr (\<lambda>k. case map_of ps k of Some p \<Rightarrow> Some (matched_value p doc) | None \<Rightarrow> m k)"
  using assms
proof (induction ps arbitrary: m)
  case Nil
  then show ?case by simp
next
  case (Cons kp ps)
  obtain k p where kp: "kp = (k, p)" by (cases kp)
  have fresh: "map_of ps k = None"
    using Cons.prems(1) kp by (simp add: map_of_eq_None_iff)
  have rest: "extract_loop doc ps m' =
      Inr (\<lambda>k. case map_of ps k of Some p \<Rightarrow> Some (matched_value p doc) | None \<Rightarrow> m' k)" for m'
    using Cons.IH [of m'] Cons.prems by auto
  have "sets_group p" using Cons.prems(2) kp by auto
  from re_search_group [OF this, of doc]
  have "extract_loop doc (kp # ps) m =
      extract_loop doc ps (m(k \<mapsto> matched_value p doc))"
    by (auto simp: kp matched_value_def)
  also have "\<dots> = Inr (\<lambda>k'. case map_of (kp # ps) k' of
       Some p' \<Rightarrow> Some (matched_value p' doc) | None \<Rightarrow> m k')"
    unfolding rest using fresh by (auto simp: kp fun_eq_iff split: option.splits)
  finally show ?case .
qed

subsection \<open>The damage amount\<close>
















subsection \<open>The steps of \<open>extract_fields\<close>\<close>

lemma extract_loop_fields:
  "extract_loop text FIELD_PATTERNS Map.empty = Inr (matched_fields text)"
  using extract_loop_eq [where ps = FIELD_PATTERNS and doc = "text" and m = Map.empty]
    distinct_field_names field_patterns_set_group
  by (simp add: matched_fields_def)

lemma matched_fields_at:
  "matched_fields text ''incident_location'' = Some (matched_value incident_location_pattern text)"
  "matched_fields text ''accident_description'' =
     Some (matched_value accident_description_pattern text)"
  "matched_fields text ''estimated_damage'' = Some (matched_value estimated_damage_pattern text)"
  "matched_fields text ''claim_type'' = Some (matched_value claim_type_pattern text)"
  "matched_fields text ''estimated_damage_value'' = None"
  by (simp_all add: matched_fields_def FIELD_PATTERNS_def)

lemma matched_fields_text: "matched_fields text k = Some v \<Longrightarrow> is_text v"
  by (auto simp: matched_fields_def matched_value_text split: option.splits)

lemma fallback_search_result:
  assumes "sets_group p"
  shows "fallback_search p desc e =
           Inr (case re_search p desc of
                  Some (Some v) \<Rightarrow> e(''incident_location'' \<mapsto> PStr (str_title v))
                | _ \<Rightarrow> e)"
  using re_search_group [OF assms, of desc]
  by (auto simp: fallback_search_def)

lemma location_fallback_frame:
  assumes "is_text (dict_get e ''accident_description'' PNone)"
  shows "\<exists>m. location_fallback e = Inr m \<and> (\<forall>k. k \<noteq> ''incident_location'' \<longrightarrow> m k = e k)"
proof (cases "dict_get e ''accident_description'' PNone")
  case PNone
  then show ?thesis by (simp add: location_fallback_def)
next
  case (PNum n)
  then show ?thesis using assms by (simp add: is_text_def)
next
  case (PStr d)
  then show ?thesis
    by (auto simp: location_fallback_def Let_def fallback_search_result fallback_patterns_set_group
        split: option.splits)
qed


lemma py_float_empty: "py_float [] = None"
  by (simp add: py_float_def float_strip_def str_remove_def)

lemma damage_value_result:
  assumes "is_text (dict_get e ''estimated_damage'' PNone)"
  shows "damage_value e =
           Inr (e(''estimated_damage_value'' \<mapsto>
                  PNum (damage_number (dict_get e ''estimated_damage'' PNone))))"
proof (cases "dict_get e ''estimated_damage'' PNone")
  case PNone
  then show ?thesis by (simp add: damage_value_def damage_number_def)
next
  case (PNum n)
  then show ?thesis using assms by (simp add: is_text_def)
next
  case (PStr s)
  then show ?thesis
    by (cases "s = []")
      (auto simp: damage_value_def damage_number_def py_float_empty str_remove_def
        split: option.splits)
qed


lemma extract_fields_result:
  "\<exists>m1. location_fallback (matched_fields doc) = Inr m1
     \<and> (\<forall>k. k \<noteq> ''incident_location'' \<longrightarrow> m1 k = matched_fields doc k)
     \<and> extract_fields doc =
         Inr (m1(''estimated_damage_value'' \<mapsto>
                   PNum (damage_number (matched_value estimated_damage_pattern doc))))"
proof -
  have "is_text (dict_get (matched_fields doc) ''accident_description'' PNone)"
    by (simp add: dict_get_def matched_fields_at matched_value_text)
  from location_fallback_frame [OF this] obtain m1 where
    m1: "location_fallback (matched_fields doc) = Inr m1"
      "\<forall>k. k \<noteq> ''incident_location'' \<longrightarrow> m1 k = matched_fields doc k"
    by blast
  have ed: "dict_get m1 ''estimated_damage'' PNone = matched_value estimated_damage_pattern doc"
    using m1(2) by (simp add: dict_get_def matched_fields_at)
  then have "is_text (dict_get m1 ''estimated_damage'' PNone)"
    by (simp add: matched_value_text)
  from damage_value_result [OF this]
  have "extract_fields doc =
      Inr (m1(''estimated_damage_value'' \<mapsto>
                PNum (damage_number (matched_value estimated_damage_pattern doc))))"
    using m1(1) ed by (simp add: extract_fields_def extract_loop_fields)
  with m1 show ?thesis by blast
qed

subsection \<open>Extraction\<close>

lemmas float_eval = py_float_def float_strip_def float_space_chars_def str_remove_def
  parse_unsigned_def parse_decimal_def parse_exponent_def power10_def is_digit_def digit_chars_def
  digit_value_def nat_of_digits_def str_lower_def lower_char_def underscores_ok.simps Let_def









lemma street_example_matched:
  "matched_value incident_location_pattern ''Description: hit on Elm  street'' = PNone"
  "matched_value accident_description_pattern ''Description: hit on Elm  street''
     = PStr ''hit on Elm  street''"
  by code_simp+

lemma street_example_fallback:
  "fallback_location ''hit on Elm  street'' = PStr ''Elm  Street''"
  "fallback_location ''Street parking only, hit while parked'' = PNone"
  "fallback_location ''Hit in the PARKING lot near the intersection of 5th and Main.''
     = PStr ''Parking lot/garage''"
  "fallback_location ''Crash at the intersection of 5th and main. no injuries''
     = PStr ''5Th And Main''"
  by code_simp+

subsection \<open>The orchestrator\<close>

text \<open>
  C5. Whenever the text source fails for a document, \<open>process_claim\<close> returns a result
  record with status FAILED, no extracted fields, every mandatory field listed as missing
  in the declared order, the route MANUAL_REVIEW and a reasoning that reports the parse
  failure with the exception's message; the route is never FAST_TRACK.
\<close>

theorem process_claim_unreadable:
  assumes "parse_document path = Inl e"
  shows "\<exists>r. process_claim parse_document n path = Inr (r, n)
           \<and> status r = ''FAILED''
           \<and> extractedFields r = Map.empty
           \<and> missingFields r = MANDATORY_FIELDS
           \<and> recommendedRoute r = ''MANUAL_REVIEW''
           \<and> reasoning r = ''Document parsing failed: '' @ e
           \<and> error r = Some e
           \<and> recommendedRoute r \<noteq> ''FAST_TRACK''"
  using assms by (simp add: process_claim_def)

theorem process_claim_unreadable_witness:
  "\<exists>r. process_claim (\<lambda>p. Inl (''Document not found: '' @ p)) 3 ''claim.txt'' = Inr (r, 3)
       \<and> status r = ''FAILED''
       \<and> extractedFields r = Map.empty
       \<and> missingFields r =
           [''policy_number'', ''policyholder_name'', ''incident_date'',
            ''incident_location'', ''claim_type'', ''estimated_damage'']
       \<and> recommendedRoute r = ''MANUAL_REVIEW''
       \<and> reasoning r = ''Document parsing failed: Document not found: claim.txt''"
  using process_claim_unreadable
    [where parse_document = "\<lambda>p. Inl (''Document not found: '' @ p)" and path = "''claim.txt''"
       and e = "''Document not found: claim.txt''" and n = 3]
  by (auto simp: MANDATORY_FIELDS_def)

text \<open>
  Inside \<open>process_claim\<close> no step after the text source raises: the extractor stores
  only strings and \<open>None\<close>, a claim type of \<open>None\<close> is reported missing, so the routing
  rule that calls \<open>.lower()\<close> is reached with a string only, and the damage value is
  always a number. Every document therefore gets a result record with one of the five
  routes.
\<close>

lemma process_claim_returns:
  "\<exists>r c. process_claim parse_document n path = Inr (r, c)
         \<and> recommendedRoute r \<in> set all_routes"
proof (cases "parse_document path")
  case (Inl e)
  then show ?thesis by (simp add: process_claim_def all_routes_def)
next
  case (Inr doc)
  from extract_fields_result [of doc] obtain m1 where
    frame: "\<forall>k. k \<noteq> ''incident_location'' \<longrightarrow> m1 k = matched_fields doc k" and
    res: "extract_fields doc =
      Inr (m1(''estimated_damage_value'' \<mapsto>
                PNum (damage_number (matched_value estimated_damage_pattern doc))))"
    by blast
  let ?m = "m1(''estimated_damage_value'' \<mapsto>
                PNum (damage_number (matched_value estimated_damage_pattern doc)))"
  let ?missing = "validate_fields ?m" and ?fraud = "check_for_fraud_indicators doc"
  have ct: "dict_get ?m ''claim_type'' (PStr '''') = matched_value claim_type_pattern doc"
    "dict_get ?m ''claim_type'' PNone = matched_value claim_type_pattern doc"
    using frame by (simp_all add: dict_get_def matched_fields_at)
  have dv: "dict_get ?m ''estimated_damage_value'' (PNum (Fin 0)) =
      PNum (damage_number (matched_value estimated_damage_pattern doc))"
    by (simp add: dict_get_def)
  have "\<not> (\<exists>e. determine_route ?m ?missing ?fraud = Inl e)"
  proof
    assume "\<exists>e. determine_route ?m ?missing ?fraud = Inl e"
    then have none: "?missing = []" and
      bad: "case dict_get ?m ''claim_type'' (PStr '''') of
          PStr s \<Rightarrow> (\<forall>n. dict_get ?m ''estimated_damage_value'' (PNum (Fin 0)) \<noteq> PNum n)
        | _ \<Rightarrow> True"
      unfolding determine_route_raises_iff by (auto split: pyval.splits)
    have "''claim_type'' \<notin> set ?missing" using none by simp
    moreover have "''claim_type'' \<in> set MANDATORY_FIELDS"
      by (simp add: MANDATORY_FIELDS_def)
    ultimately have "\<not> field_missing ?m ''claim_type''"
      by (simp add: validate_fields_filter)
    then have "truthy (matched_value claim_type_pattern doc)"
      by (simp add: field_missing_def ct)
    moreover have "is_text (matched_value claim_type_pattern doc)"
      by (rule matched_value_text)
    ultimately obtain s where "matched_value claim_type_pattern doc = PStr s"
      by (cases "matched_value claim_type_pattern doc") (auto simp: is_text_def)
    with bad ct dv show False by simp
  qed
  then obtain rd where rd: "determine_route ?m ?missing ?fraud = Inr rd"
    by (cases "determine_route ?m ?missing ?fraud") auto
  from determine_route_label [OF rd] show ?thesis
    using Inr res rd by (simp add: process_claim_def Let_def)
qed

subsection \<open>A whole document\<close>

text \<open>
  The specification's first end-to-end scenario, run on the model: a document that
  states every mandatory field, a claim type without injury and a damage of 5,000, and
  holds no fraud keyword, is routed to FAST_TRACK with nothing missing.
\<close>

lemma location_fallback_found:
  "truthy (dict_get e ''incident_location'' PNone) \<Longrightarrow> location_fallback e = Inr e"
  by (simp add: location_fallback_def)

lemma extract_fields_location_found:
  assumes "truthy (matched_value incident_location_pattern doc)"
  shows "extract_fields doc =
           Inr ((matched_fields doc)(''estimated_damage_value'' \<mapsto>
                  PNum (damage_number (matched_value estimated_damage_pattern doc))))"
proof -
  have "location_fallback (matched_fields doc) = Inr (matched_fields doc)"
    using assms by (simp add: location_fallback_found dict_get_def matched_fields_at)
  with extract_fields_result [of doc] show ?thesis by auto
qed

lemma scenario_a_matched:
  "matched_fields scenario_a ''policy_number'' = Some (PStr ''ABC123'')"
  "matched_fields scenario_a ''policyholder_name'' = Some (PStr ''Jane Doe'')"
  "matched_fields scenario_a ''incident_date'' = Some (PStr ''01/02/2024'')"
  "matched_fields scenario_a ''incident_location'' = Some (PStr ''123 Main St'')"
  "matched_fields scenario_a ''claim_type'' = Some (PStr ''Auto'')"
  "matched_fields scenario_a ''estimated_damage'' = Some (PStr ''5,000'')"
  by code_simp+

lemma scenario_a_fraud: "check_for_fraud_indicators scenario_a = []"
  by code_simp

lemma scenario_a_result:
  "\<exists>r. process_claim (\<lambda>p. Inr scenario_a) 0 ''claim.txt'' = Inr (r, 1)
       \<and> status r = ''SUCCESS''
       \<and> missingFields r = []
       \<and> fraudIndicators r = Some []
       \<and> recommendedRoute r = ''FAST_TRACK''
       \<and> reasoning r = ''Low damage amount ($5,000.00 < $25,000). Eligible for expedited processing.''"
proof -
  let ?m = "(matched_fields scenario_a)(''estimated_damage_value'' \<mapsto>
      PNum (damage_number (matched_value estimated_damage_pattern scenario_a)))"
  have loc: "matched_value incident_location_pattern scenario_a = PStr ''123 Main St''"
    using scenario_a_matched(4) by (simp add: matched_fields_at)
  have dmg: "matched_value estimated_damage_pattern scenario_a = PStr ''5,000''"
    using scenario_a_matched(6) by (simp add: matched_fields_at)
  have num: "damage_number (PStr ''5,000'') = Fin 5000"
    by (simp add: damage_number_def float_eval)
  have ex: "extract_fields scenario_a = Inr ?m"
    by (rule extract_fields_location_found) (simp add: loc)
  have missing: "validate_fields ?m = []"
    by (simp add: validate_fields_filter MANDATORY_FIELDS_def field_missing_def dict_get_def
        scenario_a_matched str_strip_def str_lower_def lower_char_def py_isspace_def
        whitespace_chars_def placeholder_values_def)
  have route: "determine_route ?m [] [] =
      Inr \<lparr>recommendedRoute = ''FAST_TRACK'',
           reasoning = ''Low damage amount ($5,000.00 < $25,000). Eligible for expedited processing.''\<rparr>"
    by (simp add: determine_route_def damage_rule_def dict_get_def scenario_a_matched dmg num
        str_lower_def lower_char_def FAST_TRACK_THRESHOLD_def format_comma_int_def
        round_half_even_def Let_def str_nat.simps group_thousands.simps digit_char_def)
  show ?thesis
    by (simp add: process_claim_def ex missing scenario_a_fraud route)
qed

end
